theory Spec2Isabelle
  imports Main "HOL-Library.Sublist"
begin

section \<open>Text-to-speech driver \<^verbatim>\<open>frontend/scripts/llasa_mlx.py\<close>\<close>

text \<open>
  The script builds a two-message chat prompt, lets a language model continue it, turns
  the generated string into a list of integer speech codes, has a codec decode them and
  writes the waveform to a file. The string handling is modelled in full; the models,
  the tensor library and the sound-file writer are parameters.

  A Python \<^verbatim>\<open>str\<close> is a \<^typ>\<open>string\<close> whose characters stand for one code point
  each (code points below 256). Python's \<^verbatim>\<open>int\<close> is \<^typ>\<open>int\<close>.
\<close>

subsection \<open>The string methods the script calls\<close>

datatype error = ValueError | IndexError | CollaboratorFailure

text \<open>\<^verbatim>\<open>s.startswith(p)\<close> and \<^verbatim>\<open>s.endswith(p)\<close>.\<close>

definition startswith :: "string \<Rightarrow> string \<Rightarrow> bool" where
  "startswith s p = prefix p s"

definition endswith :: "string \<Rightarrow> string \<Rightarrow> bool" where
  "endswith s p = suffix p s"

text \<open>
  \<^verbatim>\<open>s.replace(old, new)\<close>: the occurrences of \<^verbatim>\<open>old\<close> are found from the left and do
  not overlap; every one of them is replaced. For an empty \<^verbatim>\<open>old\<close> Python puts
  \<^verbatim>\<open>new\<close> before every character and at the end.
\<close>

function replace :: "string \<Rightarrow> string \<Rightarrow> string \<Rightarrow> string" where
  "replace [] old new = (if old = [] then new else [])"
| "replace (c # cs) old new =
     (if old = [] then new @ c # replace cs old new
      else if prefix old (c # cs) then new @ replace (drop (length old) (c # cs)) old new
      else c # replace cs old new)"
  by pat_completeness auto
termination
  by (relation "measure (\<lambda>(s, old, new). length s)") auto

text \<open>
  \<^verbatim>\<open>s.split(sep)\<close> for a separator of one character: the pieces between the
  separators, empty pieces included, so the empty string gives one empty piece.
\<close>

fun split_acc :: "char \<Rightarrow> string \<Rightarrow> string \<Rightarrow> string list" where
  "split_acc sep cur [] = [cur]"
| "split_acc sep cur (c # cs) =
     (if c = sep then cur # split_acc sep [] cs else split_acc sep (cur @ [c]) cs)"

definition split_sep :: "string \<Rightarrow> char \<Rightarrow> string list" where
  "split_sep s sep = split_acc sep [] s"

text \<open>
  \<^verbatim>\<open>token_str[4:-2]\<close>: from index 4 up to two characters before the end; a slice never
  raises, and is empty when the bounds cross.
\<close>

definition slice_4_m2 :: "string \<Rightarrow> string" where
  "slice_4_m2 s = drop 4 (take (length s - 2) s)"

subsection \<open>\<^verbatim>\<open>int(str)\<close>\<close>

text \<open>
  \<^verbatim>\<open>int(s)\<close> for a string, base ten: white space around the literal is dropped, one
  sign may lead, then come decimal digits, where single underscores may stand between
  two digits. Anything else raises \<^verbatim>\<open>ValueError\<close>. Among the code points below 256
  the white space that \<^verbatim>\<open>int\<close> drops is tab, line feed, vertical tab, form feed,
  carriage return, space, next line (133) and no-break space (160); the decimal digits
  are \<^verbatim>\<open>0\<close> to \<^verbatim>\<open>9\<close>.

  The interpreter also refuses a literal of more than
  \<^verbatim>\<open>sys.get_int_max_str_digits()\<close> digits with \<^verbatim>\<open>ValueError\<close>. The script leaves
  that limit at its default, 4300. Leading zeros count; the sign, the underscores and
  the white space do not.
\<close>

definition max_str_digits :: nat where
  "max_str_digits = 4300"

definition is_space :: "char \<Rightarrow> bool" where
  "is_space c \<longleftrightarrow> (of_char c :: nat) \<in> {9, 10, 11, 12, 13, 32, 133, 160}"

definition is_digit :: "char \<Rightarrow> bool" where
  "is_digit c \<longleftrightarrow> 48 \<le> (of_char c :: nat) \<and> (of_char c :: nat) \<le> 57"

definition digit_val :: "char \<Rightarrow> nat" where
  "digit_val c = of_char c - 48"

definition strip :: "string \<Rightarrow> string" where
  "strip s = rev (dropWhile is_space (rev (dropWhile is_space s)))"

fun scan_digits :: "nat \<Rightarrow> string \<Rightarrow> nat option" where
  "scan_digits acc [] = Some acc"
| "scan_digits acc [c] = (if is_digit c then Some (10 * acc + digit_val c) else None)"
| "scan_digits acc (c # d # ds) =
     (if is_digit c then scan_digits (10 * acc + digit_val c) (d # ds)
      else if c = CHR ''_'' \<and> is_digit d then scan_digits (10 * acc + digit_val d) ds
      else None)"

definition parse_digits :: "string \<Rightarrow> nat option" where
  "parse_digits s =
     (case s of [] \<Rightarrow> None
      | c # cs \<Rightarrow> if is_digit c then scan_digits (digit_val c) cs else None)"

definition int_literal :: "string \<Rightarrow> nat option" where
  "int_literal ds =
     (if max_str_digits < length (filter is_digit ds) then None else parse_digits ds)"

definition py_int :: "string \<Rightarrow> error + int" where
  "py_int s =
     (case strip s of [] \<Rightarrow> Inl ValueError
      | c # cs \<Rightarrow>
          if c = CHR ''-'' then
            (case int_literal cs of None \<Rightarrow> Inl ValueError | Some n \<Rightarrow> Inr (- int n))
          else if c = CHR ''+'' then
            (case int_literal cs of None \<Rightarrow> Inl ValueError | Some n \<Rightarrow> Inr (int n))
          else
            (case int_literal (c # cs) of None \<Rightarrow> Inl ValueError | Some n \<Rightarrow> Inr (int n)))"

subsection \<open>\<^verbatim>\<open>extract_speech_ids\<close> and the parsing steps of the script\<close>

text \<open>
  The test of the loop body: \<^verbatim>\<open>token_str.startswith('<|s_') and token_str.endswith('|>')\<close>.
\<close>

definition is_speech_token :: "string \<Rightarrow> bool" where
  "is_speech_token token_str \<longleftrightarrow> startswith token_str ''<|s_'' \<and> endswith token_str ''|>''"

text \<open>The line \<^verbatim>\<open>print(f"Unexpected token: {token_str}")\<close> writes.\<close>

definition unexpected :: "string \<Rightarrow> string" where
  "unexpected token_str = ''Unexpected token: '' @ token_str"

text \<open>
  The loop of \<^verbatim>\<open>extract_speech_ids\<close>, with the list \<^verbatim>\<open>speech_ids\<close> built so far and
  the lines printed so far. A token that passes the test goes through \<^verbatim>\<open>int\<close>, whose
  \<^verbatim>\<open>ValueError\<close> nothing catches; any other token is printed. What was printed
  before a raise stays printed.
\<close>

fun extract_loop :: "string list \<Rightarrow> int list \<Rightarrow> string list \<Rightarrow> (error + int list) \<times> string list" where
  "extract_loop [] speech_ids out = (Inr speech_ids, out)"
| "extract_loop (token_str # rest) speech_ids out =
     (if is_speech_token token_str then
        (case py_int (slice_4_m2 token_str) of
           Inl e \<Rightarrow> (Inl e, out)
         | Inr num \<Rightarrow> extract_loop rest (speech_ids @ [num]) out)
      else extract_loop rest speech_ids (out @ [unexpected token_str]))"

definition extract_speech_ids :: "string list \<Rightarrow> (error + int list) \<times> string list" where
  "extract_speech_ids speech_tokens_str = extract_loop speech_tokens_str [] []"

text \<open>
  Lines 55 to 71 of the script: both \<^verbatim>\<open>replace\<close> calls, the \<^verbatim>\<open>split\<close> at commas and
  the call of \<^verbatim>\<open>extract_speech_ids\<close>. The result is the list of ids, or the error
  raised, together with the lines \<^verbatim>\<open>extract_speech_ids\<close> printed (the script's echo
  of its intermediate values is left out).
\<close>

definition speech_tokens_of :: "string \<Rightarrow> string list" where
  "speech_tokens_of outputs =
     split_sep (replace (replace outputs ''<|SPEECH_GENERATION_START|>'' '''') ''><'' ''>,<'') CHR '',''"

definition parse_outputs :: "string \<Rightarrow> (error + int list) \<times> string list" where
  "parse_outputs outputs = extract_speech_ids (speech_tokens_of outputs)"

subsection \<open>Speech tokens as the language model writes them\<close>

text \<open>
  The decimal digits of a natural number, as \<^verbatim>\<open>str\<close> and an f-string print it, and the
  token \<^verbatim>\<open><|s_N|>\<close> built from them.
\<close>

fun str_nat :: "nat \<Rightarrow> string" where
  "str_nat n =
     (if n < 10 then [char_of (48 + n)] else str_nat (n div 10) @ [char_of (48 + n mod 10)])"

definition speech_token :: "nat \<Rightarrow> string" where
  "speech_token n = ''<|s_'' @ str_nat n @ ''|>''"

subsection \<open>The prompt\<close>

text \<open>A chat message is a dictionary with the keys \<^verbatim>\<open>role\<close> and \<^verbatim>\<open>content\<close>.\<close>

record message =
  role :: string
  content :: string

definition formatted_text :: "string \<Rightarrow> string" where
  "formatted_text input_text =
     ''<|TEXT_UNDERSTANDING_START|>'' @ input_text @ ''<|TEXT_UNDERSTANDING_END|>''"

definition chat :: "string \<Rightarrow> message list" where
  "chat input_text =
     [\<lparr>role = ''user'', content = ''Convert the text to speech:'' @ formatted_text input_text\<rparr>,
      \<lparr>role = ''assistant'', content = ''<|SPEECH_GENERATION_START|>''\<rparr>]"

subsection \<open>The whole run\<close>

text \<open>
  The libraries the script calls are parameters, each a function that returns its value
  or the error it raised:
  \<^item> \<^verbatim>\<open>tokenizer.apply_chat_template(chat, tokenize=True, continue_final_message=True)\<close>;
  \<^item> \<^verbatim>\<open>tokenizer.convert_tokens_to_ids\<close>;
  \<^item> \<^verbatim>\<open>generate(model, tokenizer, prompt=input_ids)\<close>;
  \<^item> \<^verbatim>\<open>torch.tensor(xs).cpu().unsqueeze(0).unsqueeze(0)\<close>;
  \<^item> \<^verbatim>\<open>Codec_model.decode_code\<close>;
  \<^item> \<^verbatim>\<open>gen_wav[0, 0, :].cpu().numpy()\<close>, the samples of the first channel of the first item;
  \<^item> \<^verbatim>\<open>sf.write(path, samples, rate)\<close>, which returns nothing or raises.
\<close>

record ('t, 'w, 'a) collaborators =
  apply_chat_template :: "message list \<Rightarrow> error + int list"
  convert_tokens_to_ids :: "string \<Rightarrow> error + int"
  generate :: "int list \<Rightarrow> error + string"
  tensor :: "int list \<Rightarrow> error + 't"
  decode_code :: "'t \<Rightarrow> error + 'w"
  first_channel :: "'w \<Rightarrow> error + 'a"
  sf_write :: "string \<Rightarrow> 'a \<Rightarrow> nat \<Rightarrow> error option"

text \<open>The calls of the run that reach a model or the file system, in the order made.\<close>

datatype ('t, 'a) call =
  Generate "int list"
  | DecodeCode 't
  | SfWrite string 'a nat

text \<open>
  Lines 31 to 84 for the text \<^verbatim>\<open>input_text\<close>: the error that ended the run, if any,
  and the calls made up to there. A call that raises has been made. The comprehension
  \<^verbatim>\<open>[int(x) for x in speech_ids]\<close> maps integers to themselves. Nothing between the
  parsing and \<^verbatim>\<open>decode_code\<close> looks at the length of the list. The path and the
  rate of the write are the literals of line 84. What the script prints is left out here.
\<close>

definition tts :: "('t, 'w, 'a) collaborators \<Rightarrow> string \<Rightarrow> error option \<times> ('t, 'a) call list" where
  "tts env input_text =
     (case apply_chat_template env (chat input_text) of
        Inl e \<Rightarrow> (Some e, [])
      | Inr input_ids \<Rightarrow>
     (case convert_tokens_to_ids env ''<|SPEECH_GENERATION_END|>'' of
        Inl e \<Rightarrow> (Some e, [])
      | Inr speech_end_id \<Rightarrow>
     (case generate env input_ids of
        Inl e \<Rightarrow> (Some e, [Generate input_ids])
      | Inr outputs \<Rightarrow>
     (case fst (parse_outputs outputs) of
        Inl e \<Rightarrow> (Some e, [Generate input_ids])
      | Inr speech_ids \<Rightarrow>
     (case tensor env speech_ids of
        Inl e \<Rightarrow> (Some e, [Generate input_ids])
      | Inr speech_tokens \<Rightarrow>
     (case decode_code env speech_tokens of
        Inl e \<Rightarrow> (Some e, [Generate input_ids, DecodeCode speech_tokens])
      | Inr gen_wav \<Rightarrow>
     (case first_channel env gen_wav of
        Inl e \<Rightarrow> (Some e, [Generate input_ids, DecodeCode speech_tokens])
      | Inr samples \<Rightarrow>
          (sf_write env ''gen.wav'' samples 16000,
           [Generate input_ids, DecodeCode speech_tokens, SfWrite ''gen.wav'' samples 16000]))))))))"

text \<open>The writes to the file system among the calls of a run.\<close>

fun is_write :: "('t, 'a) call \<Rightarrow> bool" where
  "is_write (SfWrite path samples rate) = True"
| "is_write c = False"

definition writes :: "('t, 'a) call list \<Rightarrow> ('t, 'a) call list" where
  "writes calls = filter is_write calls"

text \<open>
  Stand-ins for the libraries, to run the script on: a tokenizer that returns no ids, a
  language model that writes the given string, the list itself as the tensor, a codec
  that answers one channel with as many samples as there are codes.
\<close>

definition stub :: "string \<Rightarrow> (int list, int list list list, int list) collaborators" where
  "stub outputs =
     \<lparr>apply_chat_template = (\<lambda>msgs. Inr []),
      convert_tokens_to_ids = (\<lambda>tok. Inr 0),
      generate = (\<lambda>ids. Inr outputs),
      tensor = Inr,
      decode_code = (\<lambda>codes. Inr [[codes]]),
      first_channel = (\<lambda>w. case w of (ch # chs) # items \<Rightarrow> Inr ch | _ \<Rightarrow> Inl IndexError),
      sf_write = (\<lambda>path samples rate. None)\<rparr>"

section \<open>Properties\<close>

subsection \<open>Replacing and splitting\<close>

declare str_nat.simps [simp del]

lemma replace_skip:
  "c0 \<notin> set x \<Longrightarrow> replace (x @ y) (c0 # old) new = x @ replace y (c0 # old) new"
  by (induction x) auto

lemma split_acc_append:
  "sep \<notin> set x \<Longrightarrow> split_acc sep cur (x @ y) = split_acc sep (cur @ x) y"
  by (induction x arbitrary: cur) auto

lemma tokens_boundary:
  assumes "CHR ''>'' \<notin> set u" and "CHR '','' \<notin> set u"
  shows "split_sep (replace (u @ ''><'' @ v) ''><'' ''>,<'') CHR '','' =
           (u @ ''>'') # split_sep (replace (''<'' @ v) ''><'' ''>,<'') CHR '',''"
  using assms by (simp add: replace_skip split_sep_def split_acc_append)

lemma tokens_last:
  assumes "CHR ''>'' \<notin> set u" and "CHR '','' \<notin> set u"
  shows "split_sep (replace (u @ ''>'') ''><'' ''>,<'') CHR '','' = [u @ ''>'']"
  using assms by (simp add: replace_skip split_sep_def split_acc_append)

subsection \<open>Digits and \<^verbatim>\<open>int\<close>\<close>

lemma is_digit_char_of: "(d::nat) < 10 \<Longrightarrow> is_digit (char_of (48 + d))"
  by (simp add: is_digit_def)

lemma digit_val_char_of: "d < 10 \<Longrightarrow> digit_val (char_of (48 + d)) = d"
  by (simp add: digit_val_def)

lemma str_nat_digits: "c \<in> set (str_nat n) \<Longrightarrow> is_digit c"
proof (induction n arbitrary: c rule: str_nat.induct)
  case (1 n)
  show ?case
  proof (cases "n < 10")
    case True
    with "1.prems" show ?thesis by (simp add: str_nat.simps [of n] is_digit_char_of)
  next
    case False
    with "1.prems" "1.IH" show ?thesis
      by (auto simp add: str_nat.simps [of n] is_digit_char_of)
  qed
qed

lemma str_nat_not_Nil: "str_nat n \<noteq> []"
  by (subst str_nat.simps) simp

lemma scan_digits_all:
  "\<forall>c\<in>set ds. is_digit c \<Longrightarrow>
     scan_digits acc ds = Some (foldl (\<lambda>a c. 10 * a + digit_val c) acc ds)"
  by (induction acc ds rule: scan_digits.induct) auto

lemma foldl_str_nat: "foldl (\<lambda>a c. 10 * a + digit_val c) 0 (str_nat n) = n"
proof (induction n rule: str_nat.induct)
  case (1 n)
  show ?case
  proof (cases "n < 10")
    case True
    then show ?thesis by (simp add: str_nat.simps [of n] digit_val_char_of)
  next
    case False
    with "1.IH" show ?thesis
      by (simp add: str_nat.simps [of n] digit_val_char_of)
  qed
qed

lemma parse_digits_str_nat: "parse_digits (str_nat n) = Some n"
proof (cases "str_nat n")
  case Nil
  then show ?thesis by (simp add: str_nat_not_Nil)
next
  case (Cons c cs)
  have dig: "\<forall>x\<in>set (c # cs). is_digit x"
    using str_nat_digits [of _ n] Cons by auto
  have "foldl (\<lambda>a c. 10 * a + digit_val c) 0 (c # cs) = n"
    using foldl_str_nat [of n] Cons by simp
  with dig show ?thesis
    by (simp add: parse_digits_def Cons scan_digits_all)
qed

lemma is_digit_not_space: "is_digit c \<Longrightarrow> \<not> is_space c"
  by (auto simp add: is_digit_def is_space_def)

lemma is_digit_not_sign: "is_digit c \<Longrightarrow> c \<noteq> CHR ''-'' \<and> c \<noteq> CHR ''+''"
  by (auto simp add: is_digit_def)

lemma strip_no_space: "\<forall>c\<in>set s. \<not> is_space c \<Longrightarrow> strip s = s"
proof -
  assume a: "\<forall>c\<in>set s. \<not> is_space c"
  have 1: "dropWhile is_space s = s" using a by (cases s) auto
  have 2: "dropWhile is_space (rev s) = rev s" using a by (cases "rev s") auto
  show ?thesis by (simp add: strip_def 1 2)
qed

lemma filter_digits_str_nat: "filter is_digit (str_nat n) = str_nat n"
  by (rule filter_True) (simp add: str_nat_digits)

lemma length_str_nat_le: "n < 10 ^ k \<Longrightarrow> 0 < k \<Longrightarrow> length (str_nat n) \<le> k"
proof (induction n arbitrary: k rule: str_nat.induct)
  case (1 n)
  show ?case
  proof (cases "n < 10")
    case True
    with "1.prems" show ?thesis by (simp add: str_nat.simps [of n])
  next
    case False
    obtain j where k: "k = Suc j" using "1.prems"(2) by (cases k) auto
    have "0 < j"
    proof (rule ccontr)
      assume "\<not> 0 < j"
      with k "1.prems"(1) False show False by simp
    qed
    moreover have "n div 10 < 10 ^ j" using "1.prems"(1) k by (simp add: less_mult_imp_div_less)
    ultimately have "length (str_nat (n div 10)) \<le> j" using "1.IH" [OF False] by simp
    with False k show ?thesis by (simp add: str_nat.simps [of n])
  qed
qed

lemma length_str_nat_gt: "10 ^ k \<le> n \<Longrightarrow> k < length (str_nat n)"
proof (induction n arbitrary: k rule: str_nat.induct)
  case (1 n)
  show ?case
  proof (cases k)
    case 0
    then show ?thesis using str_nat_not_Nil [of n] by simp
  next
    case (Suc j)
    with "1.prems" have ge: "10 * 10 ^ j \<le> n" by simp
    have "(1::nat) \<le> 10 ^ j" by simp
    with ge have n10: "\<not> n < 10" by linarith
    from ge have "10 ^ j \<le> n div 10" by simp
    then have "j < length (str_nat (n div 10))" using "1.IH" [OF n10] by simp
    with n10 Suc show ?thesis by (simp add: str_nat.simps [of n])
  qed
qed

lemma int_literal_str_nat:
  assumes "n < 10 ^ max_str_digits"
  shows "int_literal (str_nat n) = Some n"
proof -
  have "length (str_nat n) \<le> max_str_digits"
    using assms by (rule length_str_nat_le) (simp add: max_str_digits_def)
  then show ?thesis
    by (simp add: int_literal_def filter_digits_str_nat parse_digits_str_nat)
qed

lemma int_literal_too_long:
  assumes "10 ^ max_str_digits \<le> n"
  shows "int_literal (str_nat n) = None"
  using length_str_nat_gt [OF assms] by (simp add: int_literal_def filter_digits_str_nat)

lemma strip_str_nat: "strip (str_nat n) = str_nat n"
  by (rule strip_no_space) (auto dest: str_nat_digits is_digit_not_space)

lemma py_int_digits:
  assumes "str_nat n = c # cs"
  shows "py_int (str_nat n) =
    (case int_literal (str_nat n) of None \<Rightarrow> Inl ValueError | Some k \<Rightarrow> Inr (int k))"
proof -
  have "is_digit c" using str_nat_digits [of c n] assms by simp
  then have "c \<noteq> CHR ''-''" "c \<noteq> CHR ''+''" using is_digit_not_sign by auto
  moreover have "strip (c # cs) = c # cs" using strip_str_nat [of n] assms by simp
  ultimately show ?thesis by (simp add: py_int_def assms)
qed

lemma py_int_str_nat:
  assumes "n < 10 ^ max_str_digits"
  shows "py_int (str_nat n) = Inr (int n)"
proof -
  obtain c cs where cs: "str_nat n = c # cs"
    using str_nat_not_Nil [of n] by (cases "str_nat n") auto
  show ?thesis
    unfolding py_int_digits [OF cs] int_literal_str_nat [OF assms] by simp
qed

lemma py_int_too_long:
  assumes "10 ^ max_str_digits \<le> n"
  shows "py_int (str_nat n) = Inl ValueError"
proof -
  obtain c cs where cs: "str_nat n = c # cs"
    using str_nat_not_Nil [of n] by (cases "str_nat n") auto
  show ?thesis
    unfolding py_int_digits [OF cs] int_literal_too_long [OF assms] by simp
qed

lemma below_limit: "(n::nat) < 10000 \<Longrightarrow> n < 10 ^ max_str_digits"
proof -
  assume "(n::nat) < 10000"
  moreover have "(10::nat) ^ 4 \<le> 10 ^ max_str_digits"
    by (rule power_increasing) (simp_all add: max_str_digits_def)
  ultimately show ?thesis by simp
qed

lemma str_nat_no_char:
  "\<not> is_digit c \<Longrightarrow> c \<notin> set (str_nat n)"
  using str_nat_digits by blast

lemma speech_token_is: "is_speech_token (speech_token n)"
  by (simp add: is_speech_token_def startswith_def endswith_def speech_token_def suffix_def)

lemma speech_token_slice: "slice_4_m2 (speech_token n) = str_nat n"
  by (simp add: slice_4_m2_def speech_token_def)

lemma speech_token_int:
  "n < 10 ^ max_str_digits \<Longrightarrow> py_int (slice_4_m2 (speech_token n)) = Inr (int n)"
  by (simp add: speech_token_slice py_int_str_nat)

lemma speech_token_too_long:
  "10 ^ max_str_digits \<le> n \<Longrightarrow> py_int (slice_4_m2 (speech_token n)) = Inl ValueError"
  by (simp add: speech_token_slice py_int_too_long)

lemma speech_token_inner:
  "CHR ''>'' \<notin> set (''<|s_'' @ str_nat n @ ''|'')" "CHR '','' \<notin> set (''<|s_'' @ str_nat n @ ''|'')"
  by (simp_all add: str_nat_no_char is_digit_def)

subsection \<open>The loop of \<^verbatim>\<open>extract_speech_ids\<close>\<close>

lemma extract_loop_ok:
  assumes "\<forall>t\<in>set toks. is_speech_token t \<longrightarrow> (\<exists>n. py_int (slice_4_m2 t) = Inr n)"
  shows "\<exists>nums. map Inr nums = map (\<lambda>t. py_int (slice_4_m2 t)) (filter is_speech_token toks) \<and>
           extract_loop toks ids out =
             (Inr (ids @ nums), out @ map unexpected (filter (\<lambda>t. \<not> is_speech_token t) toks))"
  using assms
proof (induction toks arbitrary: ids out)
  case Nil
  then show ?case by simp
next
  case (Cons t toks)
  show ?case
  proof (cases "is_speech_token t")
    case True
    then obtain n where n: "py_int (slice_4_m2 t) = Inr n" using Cons.prems by auto
    from Cons.IH [of "ids @ [n]" out] Cons.prems
    obtain nums where "map Inr nums = map (\<lambda>t. py_int (slice_4_m2 t)) (filter is_speech_token toks)"
      and "extract_loop toks (ids @ [n]) out =
             (Inr ((ids @ [n]) @ nums), out @ map unexpected (filter (\<lambda>t. \<not> is_speech_token t) toks))"
      by auto
    then show ?thesis using True n
      by (intro exI [of _ "n # nums"]) simp
  next
    case False
    from Cons.IH [of ids "out @ [unexpected t]"] Cons.prems
    obtain nums where "map Inr nums = map (\<lambda>t. py_int (slice_4_m2 t)) (filter is_speech_token toks)"
      and "extract_loop toks ids (out @ [unexpected t]) =
             (Inr (ids @ nums), (out @ [unexpected t]) @ map unexpected (filter (\<lambda>t. \<not> is_speech_token t) toks))"
      by auto
    then show ?thesis using False
      by (intro exI [of _ nums]) simp
  qed
qed

subsection \<open>Streams made of speech tokens\<close>

lemma tokens_body:
  "L \<noteq> [] \<Longrightarrow>
     split_sep (replace (concat (map speech_token L)) ''><'' ''>,<'') CHR '','' = map speech_token L"
proof (induction L rule: list_nonempty_induct)
  case (single n)
  show ?case
    using tokens_last [OF speech_token_inner, of n] by (simp add: speech_token_def)
next
  case (cons n L)
  then obtain m L' where L: "L = m # L'" by (cases L) auto
  let ?r = "''|s_'' @ str_nat m @ ''|>'' @ concat (map speech_token L')"
  have e: "concat (map speech_token (n # L)) = (''<|s_'' @ str_nat n @ ''|'') @ ''><'' @ ?r"
    by (simp add: L speech_token_def)
  have r: "''<'' @ ?r = concat (map speech_token L)"
    by (simp add: L speech_token_def)
  show ?case
    unfolding e tokens_boundary [OF speech_token_inner] r cons.IH
    by (simp add: speech_token_def)
qed

lemma sentinel_head:
  "replace (''<|s'' @ y) ''<|SPEECH_GENERATION_START|>'' new =
     ''<|s'' @ replace y ''<|SPEECH_GENERATION_START|>'' new"
  by simp

lemma sentinel_speech_token:
  "replace (speech_token n @ r) ''<|SPEECH_GENERATION_START|>'' new =
     speech_token n @ replace r ''<|SPEECH_GENERATION_START|>'' new"
proof -
  have a: "speech_token n @ r = ''<|s'' @ (''_'' @ str_nat n @ ''|>'') @ r"
    by (simp add: speech_token_def)
  have b: "CHR ''<'' \<notin> set (''_'' @ str_nat n @ ''|>'')"
    by (simp add: str_nat_no_char is_digit_def)
  show ?thesis
    unfolding a sentinel_head replace_skip [OF b] by (simp add: speech_token_def)
qed

lemma sentinel_body:
  "replace (concat (map speech_token L)) ''<|SPEECH_GENERATION_START|>'' [] =
     concat (map speech_token L)"
  by (induction L) (simp_all add: sentinel_speech_token)

lemma sentinel_leading:
  "replace (''<|SPEECH_GENERATION_START|>'' @ r) ''<|SPEECH_GENERATION_START|>'' [] =
     replace r ''<|SPEECH_GENERATION_START|>'' []"
  by simp

lemma roundtrip_tokens:
  "L \<noteq> [] \<Longrightarrow>
     speech_tokens_of (''<|SPEECH_GENERATION_START|>'' @ concat (map speech_token L)) =
       map speech_token L"
  unfolding speech_tokens_of_def sentinel_leading sentinel_body
  by (rule tokens_body)

subsection \<open>A bracketed token between two speech tokens\<close>

lemma prefix_same_end:
  "c \<notin> set m \<Longrightarrow> c \<notin> set x \<Longrightarrow> prefix (m @ [c]) (x @ c # r) \<Longrightarrow> x = m"
proof (induction m arbitrary: x)
  case Nil
  then show ?case by (cases x) auto
next
  case (Cons a m)
  then show ?case by (cases x) auto
qed

lemma sentinel_not_prefix:
  assumes "CHR ''>'' \<notin> set w" and "''<'' @ w @ ''>'' \<noteq> ''<|SPEECH_GENERATION_START|>''"
  shows "\<not> prefix ''<|SPEECH_GENERATION_START|>'' (CHR ''<'' # w @ CHR ''>'' # r)"
proof
  assume p: "prefix ''<|SPEECH_GENERATION_START|>'' (CHR ''<'' # w @ CHR ''>'' # r)"
  have "prefix (''<|SPEECH_GENERATION_START|'' @ [CHR ''>'']) ((CHR ''<'' # w) @ CHR ''>'' # r)"
    using p by simp
  moreover have "CHR ''>'' \<notin> set ''<|SPEECH_GENERATION_START|''" by simp
  moreover have "CHR ''>'' \<notin> set (CHR ''<'' # w)" using assms(1) by simp
  ultimately have "CHR ''<'' # w = ''<|SPEECH_GENERATION_START|''"
    by (rule prefix_same_end [rotated 2])
  then show False using assms(2) by simp
qed

lemma sentinel_bracketed:
  assumes "CHR ''<'' \<notin> set w" and "CHR ''>'' \<notin> set w"
    and "''<'' @ w @ ''>'' \<noteq> ''<|SPEECH_GENERATION_START|>''"
  shows "replace ((''<'' @ w @ ''>'') @ r) ''<|SPEECH_GENERATION_START|>'' new =
           (''<'' @ w @ ''>'') @ replace r ''<|SPEECH_GENERATION_START|>'' new"
proof -
  have n: "CHR ''<'' \<notin> set (w @ ''>'')" using assms(1) by simp
  have np: "\<not> prefix ''|SPEECH_GENERATION_START|>'' (w @ CHR ''>'' # r)"
    using sentinel_not_prefix [OF assms(2,3), of r] by simp
  have "replace ((''<'' @ w @ ''>'') @ r) ''<|SPEECH_GENERATION_START|>'' new =
          CHR ''<'' # replace ((w @ ''>'') @ r) ''<|SPEECH_GENERATION_START|>'' new"
    using np by simp
  also have "\<dots> = CHR ''<'' # (w @ ''>'') @ replace r ''<|SPEECH_GENERATION_START|>'' new"
    by (simp only: replace_skip [OF n])
  also have "\<dots> = (''<'' @ w @ ''>'') @ replace r ''<|SPEECH_GENERATION_START|>'' new"
    by simp
  finally show ?thesis .
qed

lemma tokens_three:
  assumes "CHR ''>'' \<notin> set w" and "CHR '','' \<notin> set w"
  shows "split_sep (replace (speech_token a @ (''<'' @ w @ ''>'') @ speech_token b) ''><'' ''>,<'') CHR '','' =
           [speech_token a, ''<'' @ w @ ''>'', speech_token b]"
proof -
  have w: "CHR ''>'' \<notin> set (''<'' @ w)" "CHR '','' \<notin> set (''<'' @ w)"
    using assms by simp_all
  have e1: "speech_token a @ (''<'' @ w @ ''>'') @ speech_token b =
      (''<|s_'' @ str_nat a @ ''|'') @ ''><'' @ (w @ ''>'' @ speech_token b)"
    by (simp add: speech_token_def)
  have e2: "''<'' @ w @ ''>'' @ speech_token b =
      (''<'' @ w) @ ''><'' @ (''|s_'' @ str_nat b @ ''|>'')"
    by (simp add: speech_token_def)
  have e3: "''<'' @ ''|s_'' @ str_nat b @ ''|>'' = (''<|s_'' @ str_nat b @ ''|'') @ ''>''"
    by simp
  show ?thesis
    unfolding e1 tokens_boundary [OF speech_token_inner] e2 tokens_boundary [OF w]
      e3 tokens_last [OF speech_token_inner]
    by (simp add: speech_token_def)
qed

subsection \<open>The sign of an id\<close>

lemma py_int_nonneg:
  assumes "\<not> prefix ''-'' (strip s)" and "py_int s = Inr n"
  shows "0 \<le> n"
proof (cases "strip s")
  case Nil
  with assms(2) show ?thesis by (simp add: py_int_def)
next
  case (Cons c cs)
  then have "c \<noteq> CHR ''-''" using assms(1) by auto
  with assms(2) Cons show ?thesis
    by (auto simp add: py_int_def split: if_splits option.splits)
qed

lemma extract_loop_nonneg:
  assumes "\<forall>t\<in>set toks. is_speech_token t \<longrightarrow> \<not> prefix ''-'' (strip (slice_4_m2 t))"
    and "\<forall>n\<in>set ids. 0 \<le> n"
    and "extract_loop toks ids out = (Inr r, out')"
  shows "\<forall>n\<in>set r. 0 \<le> n"
  using assms
proof (induction toks arbitrary: ids out)
  case Nil
  then show ?case by simp
next
  case (Cons t toks)
  show ?case
  proof (cases "is_speech_token t")
    case True
    then obtain num where num: "py_int (slice_4_m2 t) = Inr num"
      and rest: "extract_loop toks (ids @ [num]) out = (Inr r, out')"
      using Cons.prems(3) by (auto split: sum.splits)
    have "\<not> prefix ''-'' (strip (slice_4_m2 t))" using Cons.prems(1) True by simp
    then have "0 \<le> num" using num by (rule py_int_nonneg)
    with Cons.prems(2) have "\<forall>n\<in>set (ids @ [num]). 0 \<le> n" by auto
    with Cons.IH [OF _ _ rest] Cons.prems(1) show ?thesis by simp
  next
    case False
    then have "extract_loop toks ids (out @ [unexpected t]) = (Inr r, out')"
      using Cons.prems(3) by simp
    with Cons.IH [OF _ Cons.prems(2)] Cons.prems(1) show ?thesis by simp
  qed
qed

section \<open>The claims\<close>

lemmas run_simps = parse_outputs_def speech_tokens_of_def split_sep_def extract_speech_ids_def
  is_speech_token_def unexpected_def startswith_def endswith_def suffix_to_prefix slice_4_m2_def
  py_int_def int_literal_def max_str_digits_def strip_def is_space_def is_digit_def
  digit_val_def parse_digits_def

text \<open>
  Claim C3 (round trip), amended. For every list \<open>L\<close> of non-negative integers of at
  most 4300 decimal digits each (that is, below \<open>10 ^ 4300\<close>), the stream made of the
  generation-start sentinel followed by the tokens \<^verbatim>\<open><|s_n|>\<close> for the \<open>n\<close> of
  \<open>L\<close>, in order, is parsed back to exactly \<open>L\<close>, in order. Nothing is printed on
  the way, except for the empty list, whose stream leaves one empty piece.
\<close>

theorem parser_roundtrip:
  assumes "\<forall>n\<in>set L. n < 10 ^ max_str_digits"
  shows "parse_outputs (''<|SPEECH_GENERATION_START|>'' @ concat (map speech_token L)) =
     (Inr (map int L), if L = [] then [unexpected []] else [])"
proof (cases "L = []")
  case True
  then show ?thesis by (simp add: run_simps)
next
  case False
  have ints: "map (\<lambda>t. py_int (slice_4_m2 t)) (map speech_token L) = map Inr (map int L)"
    using assms by (simp add: speech_token_int)
  have ok: "\<forall>t\<in>set (map speech_token L). is_speech_token t \<longrightarrow> (\<exists>n. py_int (slice_4_m2 t) = Inr n)"
    using assms by (auto simp add: speech_token_int)
  have f1: "filter is_speech_token (map speech_token L) = map speech_token L"
    by (induction L) (simp_all add: speech_token_is)
  have f2: "filter (\<lambda>t. \<not> is_speech_token t) (map speech_token L) = []"
    by (induction L) (simp_all add: speech_token_is)
  from extract_loop_ok [OF ok, of "[]" "[]"]
  obtain nums where n: "map Inr nums = map (\<lambda>t. py_int (slice_4_m2 t)) (map speech_token L)"
    and e: "extract_loop (map speech_token L) [] [] = (Inr nums, [])"
    by (auto simp add: f1 f2)
  have "map Inr nums = (map Inr (map int L) :: (error + int) list)"
    using n ints by simp
  then have "nums = map int L"
    using inj_map_eq_map [OF inj_Inr, of nums "map int L"] by blast
  with e False show ?thesis
    unfolding parse_outputs_def extract_speech_ids_def roundtrip_tokens [OF False] by simp
qed

theorem parser_roundtrip_witness:
  "parse_outputs (''<|SPEECH_GENERATION_START|>'' @ concat (map speech_token [7, 0, 42])) =
     (Inr [7, 0, 42], [])"
proof -
  have h: "\<forall>n\<in>set [7, 0, 42 :: nat]. n < 10 ^ max_str_digits"
    by (simp add: below_limit)
  from parser_roundtrip [OF h] show ?thesis by simp
qed

text \<open>
  Claim C3 as stated fails: the number \<open>10 ^ 4300\<close> has 4301 digits, so \<^verbatim>\<open>int\<close>
  refuses the text of its token and the stream of the one-element list is not parsed
  back; the run ends in \<^verbatim>\<open>ValueError\<close>.
\<close>

theorem roundtrip_fails_beyond_digit_limit:
  "parse_outputs (''<|SPEECH_GENERATION_START|>'' @ concat (map speech_token [10 ^ 4300])) =
     (Inl ValueError, [])"
proof -
  have big: "10 ^ max_str_digits \<le> (10::nat) ^ 4300"
    unfolding max_str_digits_def by (rule order_refl)
  have toks: "speech_tokens_of
      (''<|SPEECH_GENERATION_START|>'' @ concat (map speech_token [10 ^ 4300])) =
      map speech_token [10 ^ 4300]"
    by (rule roundtrip_tokens) (rule list.distinct)
  have "extract_loop (map speech_token [10 ^ 4300]) [] [] = (Inl ValueError, [])"
    using speech_token_is [of "10 ^ 4300"] speech_token_too_long [OF big]
    by (simp only: list.map extract_loop.simps if_True sum.case)
  then show ?thesis
    unfolding parse_outputs_def extract_speech_ids_def toks .
qed

text \<open>
  Claim C5 (concrete scenario). The stream
  \<^verbatim>\<open><|SPEECH_GENERATION_START|><|s_25105|><|s_8984|><|s_25105|><|SPEECH_GENERATION_END|>\<close>
  is parsed to the list 25105, 8984, 25105; the end sentinel is the one token printed
  as unexpected.
\<close>

theorem concrete_scenario:
  "parse_outputs
     ''<|SPEECH_GENERATION_START|><|s_25105|><|s_8984|><|s_25105|><|SPEECH_GENERATION_END|>'' =
   (Inr [25105, 8984, 25105], [''Unexpected token: <|SPEECH_GENERATION_END|>''])"
  by (simp add: run_simps)

text \<open>
  Claim C6 (prompt). For every input text the prompt has exactly two messages: the
  first of role \<^verbatim>\<open>user\<close>, its content the instruction, the start marker, the text and the
  end marker; the second of role \<^verbatim>\<open>assistant\<close>, its content the generation-start
  sentinel and nothing more. For the text \<^verbatim>\<open>Hi\<close> the user content is
  \<^verbatim>\<open>Convert the text to speech:<|TEXT_UNDERSTANDING_START|>Hi<|TEXT_UNDERSTANDING_END|>\<close>.
\<close>

theorem prompt_two_entries:
  "length (chat t) = 2 \<and>
   role (chat t ! 0) = ''user'' \<and>
   content (chat t ! 0) =
     ''Convert the text to speech:<|TEXT_UNDERSTANDING_START|>'' @ t @ ''<|TEXT_UNDERSTANDING_END|>'' \<and>
   role (chat t ! 1) = ''assistant'' \<and>
   content (chat t ! 1) = ''<|SPEECH_GENERATION_START|>'' \<and>
   content (chat ''Hi'' ! 0) =
     ''Convert the text to speech:<|TEXT_UNDERSTANDING_START|>Hi<|TEXT_UNDERSTANDING_END|>''"
  by (simp add: chat_def formatted_text_def)

text \<open>
  Claim C10 (empty stream). Splitting the empty stream leaves one empty piece; the
  parser returns the empty list and prints exactly one line for that piece.
\<close>

theorem empty_stream_one_diagnostic:
  "speech_tokens_of [] = [[]] \<and> parse_outputs [] = (Inr [], [''Unexpected token: ''])"
  by (simp add: run_simps)

text \<open>
  Claim C1, amended. Take any stream in which \<^verbatim>\<open>int\<close> accepts the text between
  \<^verbatim>\<open><|s_\<close> and \<^verbatim>\<open>|>\<close> of every piece of the split that starts with \<^verbatim>\<open><|s_\<close> and
  ends with \<^verbatim>\<open>|>\<close>. Then the parsing returns a list of integers, the values of those
  texts in order, and every piece that does not both start with \<^verbatim>\<open><|s_\<close> and end with
  \<^verbatim>\<open>|>\<close> (the end-of-generation sentinel among them) is skipped and printed as an
  unexpected token, in order.
\<close>

theorem unexpected_tokens_skipped:
  assumes "\<forall>t\<in>set (speech_tokens_of outputs).
             is_speech_token t \<longrightarrow> (\<exists>n. py_int (slice_4_m2 t) = Inr n)"
  shows "\<exists>ids. parse_outputs outputs =
             (Inr ids, map unexpected (filter (\<lambda>t. \<not> is_speech_token t) (speech_tokens_of outputs))) \<and>
           map Inr ids =
             map (\<lambda>t. py_int (slice_4_m2 t)) (filter is_speech_token (speech_tokens_of outputs))"
  using extract_loop_ok [OF assms, of "[]" "[]"]
  by (auto simp add: parse_outputs_def extract_speech_ids_def)

theorem unexpected_tokens_skipped_witness:
  "parse_outputs ''<|s_7|><|junk|><|SPEECH_GENERATION_END|>'' =
     (Inr [7], [''Unexpected token: <|junk|>'', ''Unexpected token: <|SPEECH_GENERATION_END|>''])"
proof -
  have h: "\<forall>t\<in>set (speech_tokens_of ''<|s_7|><|junk|><|SPEECH_GENERATION_END|>'').
      is_speech_token t \<longrightarrow> (\<exists>n. py_int (slice_4_m2 t) = Inr n)"
    by (simp add: run_simps)
  from unexpected_tokens_skipped [OF h] obtain ids where
    "parse_outputs ''<|s_7|><|junk|><|SPEECH_GENERATION_END|>'' =
       (Inr ids, map unexpected (filter (\<lambda>t. \<not> is_speech_token t)
          (speech_tokens_of ''<|s_7|><|junk|><|SPEECH_GENERATION_END|>'')))"
    and "map Inr ids = map (\<lambda>t. py_int (slice_4_m2 t))
          (filter is_speech_token (speech_tokens_of ''<|s_7|><|junk|><|SPEECH_GENERATION_END|>''))"
    by blast
  then show ?thesis
    by (simp add: run_simps)
qed

text \<open>
  Claim C1 as stated fails at two pieces that are not of the form
  \<^verbatim>\<open><|s_<digits>|>\<close>, and neither is skipped: on \<^verbatim>\<open><|s_x|>\<close> the call of
  \<^verbatim>\<open>int\<close> raises and no list is returned; \<^verbatim>\<open><|s_+5|>\<close> is taken as the id 5
  and nothing is printed.
\<close>

theorem malformed_number_raises:
  "parse_outputs ''<|s_x|>'' = (Inl ValueError, []) \<and>
   parse_outputs ''<|s_+5|>'' = (Inr [5], [])"
  by (simp add: run_simps)

text \<open>
  Claim C7, amended. Take numbers \<open>a\<close> and \<open>b\<close> of at most 4300 decimal digits and
  a bracketed token \<^verbatim>\<open><w>\<close> whose inside \<open>w\<close> has no \<^verbatim>\<open><\<close>, no \<^verbatim>\<open>>\<close> and no
  comma, which is not the generation-start sentinel and does not both start with
  \<^verbatim>\<open><|s_\<close> and end with \<^verbatim>\<open>|>\<close>. For every stream made of the token \<^verbatim>\<open><|s_a|>\<close>,
  that token and the token \<^verbatim>\<open><|s_b|>\<close>, the parser returns exactly \<open>a\<close> and \<open>b\<close>
  in that order and prints one line, for the token in between.
\<close>

theorem unknown_between_valid:
  assumes "a < 10 ^ max_str_digits" and "b < 10 ^ max_str_digits"
    and "CHR ''<'' \<notin> set w" and "CHR ''>'' \<notin> set w" and "CHR '','' \<notin> set w"
    and "\<not> is_speech_token (''<'' @ w @ ''>'')"
    and "''<'' @ w @ ''>'' \<noteq> ''<|SPEECH_GENERATION_START|>''"
  shows "parse_outputs (speech_token a @ (''<'' @ w @ ''>'') @ speech_token b) =
           (Inr [int a, int b], [unexpected (''<'' @ w @ ''>'')])"
proof -
  have "replace (speech_token a @ (''<'' @ w @ ''>'') @ speech_token b @ [])
          ''<|SPEECH_GENERATION_START|>'' [] =
        speech_token a @ (''<'' @ w @ ''>'') @ speech_token b @ []"
    unfolding sentinel_speech_token sentinel_bracketed [OF assms(3,4,7)] by simp
  then have "speech_tokens_of (speech_token a @ (''<'' @ w @ ''>'') @ speech_token b) =
      [speech_token a, ''<'' @ w @ ''>'', speech_token b]"
    unfolding speech_tokens_of_def using tokens_three [OF assms(4,5), of a b] by simp
  then show ?thesis
    unfolding parse_outputs_def extract_speech_ids_def
    using assms(6) by (simp add: speech_token_is speech_token_int [OF assms(1)]
      speech_token_int [OF assms(2)])
qed

theorem unknown_between_valid_witness:
  "CHR ''<'' \<notin> set ''|unknown|'' \<and> CHR ''>'' \<notin> set ''|unknown|'' \<and> CHR '','' \<notin> set ''|unknown|'' \<and>
   \<not> is_speech_token ''<|unknown|>'' \<and> ''<|unknown|>'' \<noteq> ''<|SPEECH_GENERATION_START|>'' \<and>
   parse_outputs (speech_token 3 @ ''<|unknown|>'' @ speech_token 14) =
     (Inr [3, 14], [''Unexpected token: <|unknown|>''])"
proof -
  have n: "(3::nat) < 10 ^ max_str_digits" "(14::nat) < 10 ^ max_str_digits"
    by (simp_all add: below_limit)
  have h: "CHR ''<'' \<notin> set ''|unknown|''" "CHR ''>'' \<notin> set ''|unknown|''"
    "CHR '','' \<notin> set ''|unknown|''" "\<not> is_speech_token (''<'' @ ''|unknown|'' @ ''>'')"
    "''<'' @ ''|unknown|'' @ ''>'' \<noteq> ''<|SPEECH_GENERATION_START|>''"
    by (simp_all add: run_simps)
  from unknown_between_valid [OF n h] h show ?thesis
    by (simp add: unexpected_def)
qed

text \<open>
  Claim C7 as stated fails: between \<^verbatim>\<open><|s_1|>\<close> and \<^verbatim>\<open><|s_2|>\<close> the unrecognised
  token \<^verbatim>\<open><|s_x|>\<close> makes \<^verbatim>\<open>int\<close> raise, so that no list is returned, and the
  unrecognised token \<^verbatim>\<open><|s_+7|>\<close> adds the id 7 and is not reported.
\<close>

theorem malformed_between_valid_raises:
  "parse_outputs ''<|s_1|><|s_x|><|s_2|>'' = (Inl ValueError, []) \<and>
   parse_outputs ''<|s_1|><|s_+7|><|s_2|>'' = (Inr [1, 7, 2], [])"
  by (simp add: run_simps)

text \<open>
  Claim C8, amended. Take any stream in which no piece that starts with \<^verbatim>\<open><|s_\<close> and
  ends with \<^verbatim>\<open>|>\<close> has, between the two, a text that begins, after leading white
  space, with a minus sign. Then no element of the list the parser returns is negative.
  A minus sign anywhere else in the stream does no harm.
\<close>

theorem ids_nonneg_without_leading_minus:
  assumes "parse_outputs outputs = (Inr ids, out)"
    and "\<forall>t\<in>set (speech_tokens_of outputs).
           is_speech_token t \<longrightarrow> \<not> prefix ''-'' (strip (slice_4_m2 t))"
  shows "\<forall>n\<in>set ids. 0 \<le> n"
proof -
  have "\<forall>n\<in>set ([] :: int list). 0 \<le> n" by simp
  moreover have "extract_loop (speech_tokens_of outputs) [] [] = (Inr ids, out)"
    using assms(1) by (simp add: parse_outputs_def extract_speech_ids_def)
  ultimately show ?thesis by (rule extract_loop_nonneg [OF assms(2)])
qed

theorem ids_nonneg_without_leading_minus_witness:
  "parse_outputs ''<|s_5|><|foo-bar|>'' = (Inr [5], [''Unexpected token: <|foo-bar|>'']) \<and>
   (0::int) \<le> 5"
proof -
  have p: "parse_outputs ''<|s_5|><|foo-bar|>'' = (Inr [5], [''Unexpected token: <|foo-bar|>''])"
    by (simp add: run_simps)
  have h: "\<forall>t\<in>set (speech_tokens_of ''<|s_5|><|foo-bar|>'').
      is_speech_token t \<longrightarrow> \<not> prefix ''-'' (strip (slice_4_m2 t))"
    by (simp add: run_simps)
  from ids_nonneg_without_leading_minus [OF p h] have "(0::int) \<le> 5" by simp
  with p show ?thesis by blast
qed

text \<open>
  Claim C8 as stated fails: \<^verbatim>\<open>int\<close> reads a sign, so the stream \<^verbatim>\<open><|s_-5|>\<close> is
  parsed to the list with the one element \<open>-5\<close>.
\<close>

theorem minus_sign_gives_negative_id:
  "parse_outputs ''<|s_-5|>'' = (Inr [- 5], [])"
  by (simp add: run_simps)

text \<open>
  Claim C4, at a stream with the generation-start sentinel between two tokens. The
  comment of line 54 speaks of the beginning of the string; \<^verbatim>\<open>replace\<close> removes the
  sentinel there too, and nothing is printed for it.
\<close>

theorem sentinel_removed_mid_stream:
  "replace ''<|s_1|><|SPEECH_GENERATION_START|><|s_2|>'' ''<|SPEECH_GENERATION_START|>'' [] =
     ''<|s_1|><|s_2|>'' \<and>
   parse_outputs ''<|s_1|><|SPEECH_GENERATION_START|><|s_2|>'' = (Inr [1, 2], [])"
  by (simp add: run_simps)

lemmas tts_simps = tts_def stub_def writes_def chat_def formatted_text_def

text \<open>
  Claim C2, amended. The script has no check between the parsing and the codec. When
  the parsing yields no speech token at all, the run does not stop there: the tensor is
  built from the empty list and, if that returns, \<^verbatim>\<open>decode_code\<close> is called on it,
  right after the call of the language model.
\<close>

theorem empty_sequence_reaches_codec:
  assumes "apply_chat_template env (chat t) = Inr input_ids"
    and "convert_tokens_to_ids env ''<|SPEECH_GENERATION_END|>'' = Inr k"
    and "generate env input_ids = Inr outputs"
    and "fst (parse_outputs outputs) = Inr []"
    and "tensor env [] = Inr codes"
  shows "take 2 (snd (tts env t)) = [Generate input_ids, DecodeCode codes]"
  using assms by (simp add: tts_def split: sum.splits)

theorem empty_sequence_reaches_codec_witness:
  "apply_chat_template (stub ''<|SPEECH_GENERATION_END|>'') (chat ''Hi'') = Inr [] \<and>
   convert_tokens_to_ids (stub ''<|SPEECH_GENERATION_END|>'') ''<|SPEECH_GENERATION_END|>'' = Inr 0 \<and>
   generate (stub ''<|SPEECH_GENERATION_END|>'') [] = Inr ''<|SPEECH_GENERATION_END|>'' \<and>
   fst (parse_outputs ''<|SPEECH_GENERATION_END|>'') = Inr [] \<and>
   tensor (stub ''<|SPEECH_GENERATION_END|>'') [] = Inr [] \<and>
   take 2 (snd (tts (stub ''<|SPEECH_GENERATION_END|>'') ''Hi'')) = [Generate [], DecodeCode []]"
proof -
  have h: "apply_chat_template (stub ''<|SPEECH_GENERATION_END|>'') (chat ''Hi'') = Inr []"
    "convert_tokens_to_ids (stub ''<|SPEECH_GENERATION_END|>'') ''<|SPEECH_GENERATION_END|>'' = Inr 0"
    "generate (stub ''<|SPEECH_GENERATION_END|>'') [] = Inr ''<|SPEECH_GENERATION_END|>''"
    "fst (parse_outputs ''<|SPEECH_GENERATION_END|>'') = Inr []"
    "tensor (stub ''<|SPEECH_GENERATION_END|>'') [] = Inr []"
    by (simp_all add: stub_def run_simps)
  from empty_sequence_reaches_codec [OF h] h show ?thesis by blast
qed

text \<open>
  Claim C2 as stated fails: when the language model writes only the end-of-generation
  sentinel, the parsing yields the empty list, and the codec is called on it.
\<close>

theorem codec_invoked_on_empty_sequence:
  "tts (stub ''<|SPEECH_GENERATION_END|>'') ''Hi'' =
     (None, [Generate [], DecodeCode [], SfWrite ''gen.wav'' [] 16000])"
  by (simp add: tts_simps run_simps)

text \<open>
  Claim C9, amended. A run writes at most once, and exactly once when it ends without
  an error. The write goes to the path \<^verbatim>\<open>gen.wav\<close>, which the script fixes, at the
  rate 16000, and its samples are the first channel of the first item of what
  \<^verbatim>\<open>decode_code\<close> returned.
\<close>

theorem one_write_to_gen_wav:
  "length (writes (snd (tts env t))) \<le> 1 \<and>
   (fst (tts env t) = None \<longrightarrow> length (writes (snd (tts env t))) = 1) \<and>
   (\<forall>path samples rate. SfWrite path samples rate \<in> set (snd (tts env t)) \<longrightarrow>
      path = ''gen.wav'' \<and> rate = 16000 \<and>
      (\<exists>codes gen_wav. DecodeCode codes \<in> set (snd (tts env t)) \<and>
         decode_code env codes = Inr gen_wav \<and> first_channel env gen_wav = Inr samples))"
  by (simp add: tts_def writes_def split: sum.splits)

theorem one_write_to_gen_wav_witness:
  "fst (tts (stub ''<|s_5|>'') ''Hi'') = None \<and>
   SfWrite ''gen.wav'' [5] 16000 \<in> set (snd (tts (stub ''<|s_5|>'') ''Hi'')) \<and>
   length (writes (snd (tts (stub ''<|s_5|>'') ''Hi''))) = 1"
proof -
  have r: "tts (stub ''<|s_5|>'') ''Hi'' =
      (None, [Generate [], DecodeCode [5], SfWrite ''gen.wav'' [5] 16000])"
    by (simp add: tts_simps run_simps)
  then have "fst (tts (stub ''<|s_5|>'') ''Hi'') = None" by simp
  with one_write_to_gen_wav [of "stub ''<|s_5|>''" "''Hi''"]
  have "length (writes (snd (tts (stub ''<|s_5|>'') ''Hi''))) = 1" by blast
  with r show ?thesis by simp
qed

text \<open>
  Claim C9 as stated fails: the script takes no output path. Whatever the caller hands
  over, here the text \<^verbatim>\<open>out.wav\<close>, the one write goes to \<^verbatim>\<open>gen.wav\<close>.
\<close>

theorem path_not_from_caller:
  "writes (snd (tts (stub ''<|s_5|>'') ''out.wav'')) = [SfWrite ''gen.wav'' [5] 16000]"
  by (simp add: tts_simps run_simps)

end
